theory Spec2Isabelle
  imports Complex_Main "HOL-Library.Word" "HOL-Library.Char_ord" "HOL-Library.List_Lexorder"
    "HOL-Library.Product_Lexorder"
begin

section \<open>Data model\<close>

text \<open>
  The feature pipeline of \<^verbatim>\<open>feature_pipeline/etl.py\<close> works on pandas data frames. A frame
  is modelled as the list of its rows, in row order. A timestamp is the number of minutes
  since 1970-01-01 00:00 (the source parses \<^verbatim>\<open>%m/%d/%Y %H:%M\<close>, so minutes are the finest
  resolution that occurs); a calendar day is the timestamp divided by 1440, and the
  timestamp of a day's midnight is the day times 1440.

  A price is a rational number: the arithmetic of the source (sums, quantiles, bounds) is
  modelled exactly, without the rounding of 64-bit floats. A float cell that the code itself
  may set to NaN is a \<open>rat option\<close>, with \<open>None\<close> for NaN.
\<close>

type_synonym timestamp = int

type_synonym float64 = "rat option"

text \<open>
  A row of \<^verbatim>\<open>Transform.data\<close> after \<^verbatim>\<open>rename_columns\<close> and \<^verbatim>\<open>cast_columns\<close>: the four
  columns that are kept, \<^verbatim>\<open>invoice_date\<close> already parsed, time of day included. The type
  of the country column changes from string to int8 in \<^verbatim>\<open>encode_country_column\<close>.
\<close>

record 'c txn =
  invoice_id :: string
  invoice_date :: timestamp
  total_price :: rat
  country :: 'c

text \<open>
  A row of the frame that \<^verbatim>\<open>aggregate_data\<close> returns; the columns are
  \<^verbatim>\<open>invoice_date\<close>, \<^verbatim>\<open>total_price\<close>, \<^verbatim>\<open>country\<close> and \<^verbatim>\<open>id\<close> (primed here, since the
  names are taken by the input row and by the identity function of HOL). The country is the
  Python integer of the loop, not an int8.
\<close>

record agg_row =
  invoice_date' :: timestamp
  total_price' :: float64
  country' :: int
  id' :: nat

datatype error = TypeError | ValueError | FileNotFoundError | AttributeError

definition day_of :: "timestamp \<Rightarrow> int" where
  "day_of t = t div 1440"

definition midnight :: "int \<Rightarrow> timestamp" where
  "midnight d = d * 1440"

section \<open>Country Partitioner: \<^verbatim>\<open>filter_countries\<close> and \<^verbatim>\<open>encode_country_column\<close>\<close>

text \<open>\<^verbatim>\<open>Series.unique()\<close>: the distinct values in order of first appearance.\<close>

fun unique :: "'a list \<Rightarrow> 'a list" where
  "unique [] = []"
| "unique (x # xs) = x # unique (filter (\<lambda>y. y \<noteq> x) xs)"

text \<open>
  \<^verbatim>\<open>self.data = self.data[self.data['country'].isin(country_list)].copy()\<close> and
  \<^verbatim>\<open>self.country_mappings = {v:i for i, v in enumerate(self.data['country'].unique())}\<close>.
  The function returns the two attributes it sets; the dictionary is an association list.
\<close>

definition filter_countries ::
  "string txn list \<Rightarrow> string list \<Rightarrow> string txn list \<times> (string \<times> nat) list" where
  "filter_countries data country_list =
     (let data' = filter (\<lambda>r. country r \<in> set country_list) data
      in (data', map (\<lambda>(i, v). (v, i)) (enumerate 0 (unique (map country data')))))"

text \<open>
  \<^verbatim>\<open>astype("int8")\<close> of an integer column: numpy converts between integer types without a
  range check, keeping the low 8 bits.
\<close>

definition astype_int8 :: "nat \<Rightarrow> 8 word" where
  "astype_int8 i = of_nat i"

text \<open>
  \<^verbatim>\<open>encode_country_column\<close>: each name is looked up with \<^verbatim>\<open>dict.get\<close>, then the column is
  cast to int8. A name that the dictionary lacks gives \<^verbatim>\<open>None\<close>, which the cast refuses:
  with \<^verbatim>\<open>TypeError\<close> when no name of the column is found, and with
  \<^verbatim>\<open>IntCastingNaNError\<close>, a \<^verbatim>\<open>ValueError\<close>, when some are found (the column is then a
  float column with NaN).
\<close>

definition encode_country_column ::
  "(string \<times> nat) list \<Rightarrow> string txn list \<Rightarrow> error + 8 word txn list" where
  "encode_country_column m data =
     (let codes = map (\<lambda>r. map_of m (country r)) data
      in case those codes of
           Some cs \<Rightarrow>
             Inr (map (\<lambda>(r, i). \<lparr>invoice_id = invoice_id r, invoice_date = invoice_date r,
                                  total_price = total_price r, country = astype_int8 i\<rparr>)
                    (zip data cs))
         | None \<Rightarrow> if list_all (\<lambda>c. c = None) codes then Inl TypeError else Inl ValueError)"

text \<open>
  The rank of a name in first-seen order, stated without \<open>unique\<close>: the number of distinct
  names that occur before its first occurrence.
\<close>

definition first_seen_rank :: "'a list \<Rightarrow> 'a \<Rightarrow> nat" where
  "first_seen_rank xs x = card (set (takeWhile (\<lambda>y. y \<noteq> x) xs))"

section \<open>Outlier Filter: \<^verbatim>\<open>iqr_outlier_removal\<close>\<close>

text \<open>
  \<^verbatim>\<open>Series.quantile\<close> with the default linear interpolation: on the sorted values, at the
  position \<open>q * (n - 1)\<close>, the value between the two neighbours. It is NaN on an empty
  series. The source calls it with 0.25 and 0.75 only.
\<close>

definition quantile :: "rat list \<Rightarrow> rat \<Rightarrow> float64" where
  "quantile vs q =
     (if vs = [] then None
      else let s = sort vs;
               pos = q * of_nat (length s - 1);
               lo = nat \<lfloor>pos\<rfloor>;
               frac = pos - of_int \<lfloor>pos\<rfloor>
           in Some (if lo + 1 < length s then s ! lo + frac * (s ! (lo + 1) - s ! lo)
                    else s ! lo))"

text \<open>Float arithmetic and comparison with NaN: NaN propagates, and compares false.\<close>

definition fsub :: "float64 \<Rightarrow> float64 \<Rightarrow> float64" where
  "fsub a b = (case a of None \<Rightarrow> None | Some x \<Rightarrow> (case b of None \<Rightarrow> None | Some y \<Rightarrow> Some (x - y)))"

definition fadd :: "float64 \<Rightarrow> float64 \<Rightarrow> float64" where
  "fadd a b = (case a of None \<Rightarrow> None | Some x \<Rightarrow> (case b of None \<Rightarrow> None | Some y \<Rightarrow> Some (x + y)))"

definition fscale :: "rat \<Rightarrow> float64 \<Rightarrow> float64" where
  "fscale k a = map_option (\<lambda>x. k * x) a"

definition flt :: "float64 \<Rightarrow> float64 \<Rightarrow> bool" where
  "flt a b = (case a of None \<Rightarrow> False | Some x \<Rightarrow> (case b of None \<Rightarrow> False | Some y \<Rightarrow> x < y))"

text \<open>\<^verbatim>\<open>dropna\<close>: the rows whose value is not NaN.\<close>

fun dropna :: "(timestamp \<times> float64) list \<Rightarrow> (timestamp \<times> rat) list" where
  "dropna [] = []"
| "dropna ((t, None) # xs) = dropna xs"
| "dropna ((t, Some v) # xs) = (t, v) # dropna xs"

text \<open>
  \<^verbatim>\<open>iqr_outlier_removal\<close>, step by step as in the source: the two quantiles of the column,
  the bounds, the assignment of NaN to the rows outside the bounds, \<^verbatim>\<open>dropna\<close>.
\<close>

definition iqr_outlier_removal :: "(timestamp \<times> rat) list \<Rightarrow> (timestamp \<times> rat) list" where
  "iqr_outlier_removal agg_data =
     (let q1 = quantile (map snd agg_data) (1 / 4);
          q3 = quantile (map snd agg_data) (3 / 4);
          iqr = fsub q3 q1;
          lower_bound = fsub q1 (fscale 3 iqr);
          upper_bound = fadd q3 (fscale 3 iqr);
          marked = map (\<lambda>(t, v). (t, if flt (Some v) lower_bound \<or> flt upper_bound (Some v)
                                       then None else Some v)) agg_data
      in dropna marked)"

text \<open>
  The Outlier Filter in the words of the specification: Q1 and Q3 are the 25th and the 75th
  percentile of the whole series, and a value stays exactly when it lies within
  \<open>[Q1 - 3 * IQR, Q3 + 3 * IQR]\<close>, bounds included.
\<close>

definition outlier_filter_spec :: "(timestamp \<times> rat) list \<Rightarrow> (timestamp \<times> rat) list" where
  "outlier_filter_spec s =
     (case (quantile (map snd s) (1 / 4), quantile (map snd s) (3 / 4)) of
        (Some Q1, Some Q3) \<Rightarrow>
          filter (\<lambda>(t, v). Q1 - 3 * (Q3 - Q1) \<le> v \<and> v \<le> Q3 + 3 * (Q3 - Q1)) s
      | _ \<Rightarrow> s)"

section \<open>Daily Aggregator: \<^verbatim>\<open>aggregate_data\<close>\<close>

text \<open>
  \<^verbatim>\<open>groupby(keys).agg({'total_price':'sum'}).reset_index()\<close>: one row for each distinct
  key, in ascending order of the key, with the sum of the group.
\<close>

definition groupby_sum :: "('a \<Rightarrow> 'k::linorder) \<Rightarrow> ('a \<Rightarrow> rat) \<Rightarrow> 'a list \<Rightarrow> ('k \<times> rat) list" where
  "groupby_sum key val xs =
     map (\<lambda>k. (k, sum_list (map val (filter (\<lambda>x. key x = k) xs)))) (sort (remdups (map key xs)))"

fun min_ts :: "timestamp list \<Rightarrow> timestamp" where
  "min_ts [] = 0"
| "min_ts (t # ts) = fold min ts t"

fun max_ts :: "timestamp list \<Rightarrow> timestamp" where
  "max_ts [] = 0"
| "max_ts (t # ts) = fold max ts t"

text \<open>
  \<^verbatim>\<open>resample('D', on = 'invoice_date').sum()\<close>: one bin for each calendar day from the day
  of the earliest timestamp to the day of the latest, labelled with the day's midnight; the
  value of a bin is the sum of its rows, and the sum of a bin without rows is 0 (pandas sums
  with \<^verbatim>\<open>min_count=0\<close>), not NaN. On a frame without rows the call raises
  \<^verbatim>\<open>AttributeError\<close>: the frame keeps its range index, which pandas then treats as a
  datetime index.
\<close>

definition resample_sum :: "(timestamp \<times> rat) list \<Rightarrow> error + (timestamp \<times> float64) list" where
  "resample_sum s =
     (if s = [] then Inl AttributeError
      else Inr (map (\<lambda>d. (midnight d, Some (sum_list (map snd (filter (\<lambda>(t, v). day_of t = d) s)))))
                  [day_of (min_ts (map fst s)) .. day_of (max_ts (map fst s))]))"

text \<open>
  \<^verbatim>\<open>interpolate()\<close> with its defaults (linear, forward): a run of NaN between two known
  values is filled on the straight line between them, by position; NaN after the last known
  value takes that value; NaN before the first known value stays.
\<close>

fun next_known :: "float64 list \<Rightarrow> (nat \<times> rat) option" where
  "next_known [] = None"
| "next_known (Some v # xs) = Some (0, v)"
| "next_known (None # xs) = map_option (\<lambda>(k, v). (Suc k, v)) (next_known xs)"

fun interp_from :: "rat \<Rightarrow> nat \<Rightarrow> float64 list \<Rightarrow> float64 list" where
  "interp_from a j [] = []"
| "interp_from a j (Some v # xs) = Some v # interp_from v 1 xs"
| "interp_from a j (None # xs) =
     (case next_known xs of
        None \<Rightarrow> Some a
      | Some (k, b) \<Rightarrow> Some (a + (b - a) * of_nat j / of_nat (j + k + 1))) # interp_from a (Suc j) xs"

fun interpolate :: "float64 list \<Rightarrow> float64 list" where
  "interpolate [] = []"
| "interpolate (None # xs) = None # interpolate xs"
| "interpolate (Some v # xs) = Some v # interp_from v 1 xs"

text \<open>\<^verbatim>\<open>round()\<close> to 0 decimals, as numpy does it: to the nearest integer, ties to even.\<close>

definition round_half_even :: "rat \<Rightarrow> rat" where
  "round_half_even x =
     (let f = \<lfloor>x\<rfloor>; d = x - of_int f
      in of_int (if d < 1 / 2 then f else if 1 / 2 < d then f + 1 else if even f then f else f + 1))"

text \<open>
  The first statement of \<^verbatim>\<open>aggregate_data\<close>: the sums by
  \<^verbatim>\<open>(invoice_date, invoice_id, country)\<close>. The int8 country is ordered by its signed value.
\<close>

definition agg_by_invoice :: "8 word txn list \<Rightarrow> ((timestamp \<times> string \<times> int) \<times> rat) list" where
  "agg_by_invoice data =
     groupby_sum (\<lambda>r. (invoice_date r, invoice_id r, sint (country r))) total_price data"

text \<open>
  \<^verbatim>\<open>agg_data_1\<close>: the rows of one country, grouped by \<^verbatim>\<open>invoice_date\<close> (the timestamp
  column) and summed.
\<close>

definition agg_data_1 :: "((timestamp \<times> string \<times> int) \<times> rat) list \<Rightarrow> int \<Rightarrow> (timestamp \<times> rat) list" where
  "agg_data_1 agg_data c =
     groupby_sum (\<lambda>((t, i, k), v). t) snd (filter (\<lambda>((t, i, k), v). k = c) agg_data)"

text \<open>
  The body of the loop over the country codes, up to the concatenation: outlier removal,
  daily resampling with sum, interpolation, rounding, and the country column. An error of
  the resampling ends the call.
\<close>

definition aggregate_country ::
  "((timestamp \<times> string \<times> int) \<times> rat) list \<Rightarrow> int \<Rightarrow> error + (timestamp \<times> float64 \<times> int) list" where
  "aggregate_country agg_data c =
     (let agg_data_non_outliers = iqr_outlier_removal (agg_data_1 agg_data c)
      in case resample_sum agg_data_non_outliers of
           Inl e \<Rightarrow> Inl e
         | Inr resampled \<Rightarrow>
             (let filled = interpolate (map snd resampled);
                  rounded = map (map_option round_half_even) filled
              in Inr (map (\<lambda>(t, v). (t, v, c)) (zip (map fst resampled) rounded))))"

text \<open>
  The loop \<^verbatim>\<open>for country in [0, 1, 2]\<close>: each turn appends its partition to
  \<^verbatim>\<open>all_agg_data\<close>; the first turn that raises ends the loop with its error.
\<close>

fun aggregate_loop ::
  "((timestamp \<times> string \<times> int) \<times> rat) list \<Rightarrow> (timestamp \<times> float64 \<times> int) list \<Rightarrow> int list
     \<Rightarrow> error + (timestamp \<times> float64 \<times> int) list" where
  "aggregate_loop agg_data all_agg_data [] = Inr all_agg_data"
| "aggregate_loop agg_data all_agg_data (c # cs) =
     (case aggregate_country agg_data c of
        Inl e \<Rightarrow> Inl e
      | Inr part \<Rightarrow> aggregate_loop agg_data (all_agg_data @ part) cs)"

text \<open>The new \<^verbatim>\<open>id\<close> column: the row numbers from 0.\<close>

definition add_id :: "(timestamp \<times> float64 \<times> int) list \<Rightarrow> agg_row list" where
  "add_id rows =
     map (\<lambda>(i, (t, v, c)). \<lparr>invoice_date' = t, total_price' = v, country' = c, id' = i\<rparr>)
       (enumerate 0 rows)"

definition aggregate_data :: "8 word txn list \<Rightarrow> error + agg_row list" where
  "aggregate_data data =
     (case aggregate_loop (agg_by_invoice data) [] [0, 1, 2] of
        Inl e \<Rightarrow> Inl e
      | Inr all_agg_data \<Rightarrow> Inr (add_id all_agg_data))"

text \<open>
  \<^verbatim>\<open>transform\<close> of \<^verbatim>\<open>pipeline.py\<close>, from the cast frame on, with the allow-list as a
  parameter; the pipeline passes the three countries.
\<close>

definition transform_with :: "string list \<Rightarrow> string txn list \<Rightarrow> error + agg_row list" where
  "transform_with country_list data =
     (let (data', country_mappings) = filter_countries data country_list
      in case encode_country_column country_mappings data' of
           Inl e \<Rightarrow> Inl e
         | Inr encoded \<Rightarrow> aggregate_data encoded)"

definition transform :: "string txn list \<Rightarrow> error + agg_row list" where
  "transform = transform_with [''United Kingdom'', ''France'', ''Germany'']"

text \<open>
  Names for the intermediate frames of \<^verbatim>\<open>aggregate_data\<close>: the rows of
  \<^verbatim>\<open>agg_data_non_outliers\<close> before resampling, the calendar days they span, the total of
  one day, the partition of one country when its resampling succeeds, and the first three
  columns of an output row.
\<close>

definition surviving :: "8 word txn list \<Rightarrow> int \<Rightarrow> (timestamp \<times> rat) list" where
  "surviving data c = iqr_outlier_removal (agg_data_1 (agg_by_invoice data) c)"

definition first_day :: "(timestamp \<times> rat) list \<Rightarrow> int" where
  "first_day s = Min (day_of ` fst ` set s)"

definition last_day :: "(timestamp \<times> rat) list \<Rightarrow> int" where
  "last_day s = Max (day_of ` fst ` set s)"

definition day_total :: "(timestamp \<times> rat) list \<Rightarrow> int \<Rightarrow> rat" where
  "day_total s d = sum_list (map snd (filter (\<lambda>(t, v). day_of t = d) s))"

definition partition_rows :: "8 word txn list \<Rightarrow> int \<Rightarrow> (timestamp \<times> float64 \<times> int) list" where
  "partition_rows data c =
     map (\<lambda>d. (midnight d, Some (round_half_even (day_total (surviving data c) d)), c))
       [first_day (surviving data c) .. last_day (surviving data c)]"

definition partitions :: "8 word txn list \<Rightarrow> (timestamp \<times> float64 \<times> int) list" where
  "partitions data = partition_rows data 0 @ partition_rows data 1 @ partition_rows data 2"

definition cols :: "agg_row \<Rightarrow> timestamp \<times> float64 \<times> int" where
  "cols r = (invoice_date' r, total_price' r, country' r)"

text \<open>The encoded row: the country name replaced by the int8 of its first-seen rank.\<close>

definition encode_row :: "string list \<Rightarrow> string txn \<Rightarrow> 8 word txn" where
  "encode_row names r =
     \<lparr>invoice_id = invoice_id r, invoice_date = invoice_date r, total_price = total_price r,
      country = astype_int8 (first_seen_rank names (country r))\<rparr>"

section \<open>Schema Validator: \<^verbatim>\<open>build_expectation_suite\<close>\<close>

text \<open>
  An \<^verbatim>\<open>ExpectationConfiguration\<close> is its expectation type and its keyword arguments. The
  suite is the list of its configurations. \<^verbatim>\<open>add_expectation\<close> replaces a configuration
  of the same type on the same column, and appends otherwise.
\<close>

datatype kwarg = Str string | StrList "string list" | Num int | NumTuple "int list" | Flag bool

record expectation_configuration =
  expectation_type :: string
  kwargs :: "(string \<times> kwarg) list"

definition domain_of :: "expectation_configuration \<Rightarrow> string \<times> kwarg option" where
  "domain_of e = (expectation_type e, map_of (kwargs e) ''column'')"

fun add_expectation ::
  "expectation_configuration list \<Rightarrow> expectation_configuration \<Rightarrow> expectation_configuration list" where
  "add_expectation [] e = [e]"
| "add_expectation (x # xs) e =
     (if domain_of x = domain_of e then e # xs else x # add_expectation xs e)"

definition build_expectation_suite :: "expectation_configuration list" where
  "build_expectation_suite =
     foldl add_expectation []
       [\<lparr>expectation_type = ''expect_table_columns_to_match_ordered_list'',
         kwargs = [(''column_list'', StrList [''id'', ''invoice_date'', ''country'', ''total_price''])]\<rparr>,
        \<lparr>expectation_type = ''expect_table_column_count_to_equal'',
         kwargs = [(''value'', Num 4)]\<rparr>,
        \<lparr>expectation_type = ''expect_column_values_to_not_be_null'',
         kwargs = [(''column'', Str ''invoice_date'')]\<rparr>,
        \<lparr>expectation_type = ''expect_column_distinct_values_to_be_in_set'',
         kwargs = [(''column'', Str ''country''), (''value_set'', NumTuple [0, 1, 2])]\<rparr>,
        \<lparr>expectation_type = ''expect_column_values_to_be_of_type'',
         kwargs = [(''column'', Str ''country''), (''type_'', Str ''int8'')]\<rparr>,
        \<lparr>expectation_type = ''expect_column_min_to_be_between'',
         kwargs = [(''column'', Str ''total_price''), (''min_value'', Num 0), (''strict_min'', Flag False)]\<rparr>,
        \<lparr>expectation_type = ''expect_column_values_to_be_of_type'',
         kwargs = [(''column'', Str ''total_price''), (''type_'', Str ''float64'')]\<rparr>,
        \<lparr>expectation_type = ''expect_column_values_to_not_be_null'',
         kwargs = [(''column'', Str ''total_price'')]\<rparr>]"

section \<open>Extraction: \<^verbatim>\<open>Extract._extract_records_from_file\<close>\<close>

text \<open>
  The state that extraction reads and writes: the cache file \<^verbatim>\<open>data.csv\<close> (its lines, or
  \<open>None\<close> when the file does not exist) and the number of download commands run so far.
  The download is outside the program; its outcome is a parameter: \<open>None\<close> when the
  command raises, otherwise the cache file as the command leaves it.

  \<^verbatim>\<open>pd.read_csv\<close> skips blank lines (empty, or spaces and tabs only), takes the first
  line that is left as the header and the others as rows; it raises \<^verbatim>\<open>EmptyDataError\<close>
  when no line is left (no columns to parse). A frame is its header line and its row lines.
\<close>

record frame =
  columns :: string
  rows :: "string list"






section \<open>Example inputs\<close>

text \<open>
  2011-01-01 is day 14975; its midnight is minute 21564000. The two rows of the
  specification's example, and the same with one row of each of two other countries.
\<close>

definition two_days :: "string txn list" where
  "two_days =
     [\<lparr>invoice_id = ''inv1'', invoice_date = 21564000, total_price = 10, country = ''UK''\<rparr>,
      \<lparr>invoice_id = ''inv2'', invoice_date = 21566880, total_price = 20, country = ''UK''\<rparr>]"

definition two_days_three_countries :: "string txn list" where
  "two_days_three_countries =
     two_days @
     [\<lparr>invoice_id = ''inv3'', invoice_date = 21564000, total_price = 5, country = ''France''\<rparr>,
      \<lparr>invoice_id = ''inv4'', invoice_date = 21564000, total_price = 7, country = ''Germany''\<rparr>]"

text \<open>Two invoices of country 0 on 2011-01-01, at 10:00 and at 11:00.\<close>

definition same_day :: "8 word txn list" where
  "same_day =
     [\<lparr>invoice_id = ''inv1'', invoice_date = 21564600, total_price = 10, country = 0\<rparr>,
      \<lparr>invoice_id = ''inv2'', invoice_date = 21564660, total_price = 20, country = 0\<rparr>,
      \<lparr>invoice_id = ''inv2'', invoice_date = 21564660, total_price = 5, country = 0\<rparr>]"

definition nine_values :: "(timestamp \<times> rat) list" where
  "nine_values = zip [0, 1, 2, 3, 4, 5, 6, 7, 8] [0, 0, 0, 1, 1, 1, 2, 8, 100]"


definition mixed_countries :: "string txn list" where
  "mixed_countries =
     [\<lparr>invoice_id = ''1'', invoice_date = 21564000, total_price = 1, country = ''France''\<rparr>,
      \<lparr>invoice_id = ''2'', invoice_date = 21564001, total_price = 2, country = ''Spain''\<rparr>,
      \<lparr>invoice_id = ''3'', invoice_date = 21564002, total_price = 3, country = ''United Kingdom''\<rparr>,
      \<lparr>invoice_id = ''4'', invoice_date = 21564003, total_price = 4, country = ''france''\<rparr>,
      \<lparr>invoice_id = ''5'', invoice_date = 21564004, total_price = 5, country = ''France''\<rparr>,
      \<lparr>invoice_id = ''6'', invoice_date = 21564005, total_price = 6, country = ''Germany''\<rparr>]"

text \<open>The rows of \<open>mixed_countries\<close> that the three-country allow-list keeps.\<close>

definition kept :: "string txn list" where
  "kept = [\<lparr>invoice_id = ''1'', invoice_date = 21564000, total_price = 1, country = ''France''\<rparr>,
      \<lparr>invoice_id = ''3'', invoice_date = 21564002, total_price = 3, country = ''United Kingdom''\<rparr>,
      \<lparr>invoice_id = ''5'', invoice_date = 21564004, total_price = 5, country = ''France''\<rparr>,
      \<lparr>invoice_id = ''6'', invoice_date = 21564005, total_price = 6, country = ''Germany''\<rparr>]"

text \<open>129 rows with 129 distinct country names (1 to 129 letters a), all of them allowed.\<close>

definition letters :: "nat \<Rightarrow> string" where
  "letters n = replicate n CHR ''a''"

definition many_names :: "string list" where
  "many_names = map letters [1..<130]"

definition many_countries :: "string txn list" where
  "many_countries =
     map (\<lambda>n. \<lparr>invoice_id = ''x'', invoice_date = 0, total_price = 1, country = n\<rparr>) many_names"

text \<open>Rows of the codes 0, 1, 2 and 5; and rows of the codes 0 and 5 only.\<close>

definition stray_code :: "8 word txn list" where
  "stray_code =
     [\<lparr>invoice_id = ''a'', invoice_date = 21564000, total_price = 3, country = 0\<rparr>,
      \<lparr>invoice_id = ''b'', invoice_date = 21564000, total_price = 7, country = 5\<rparr>,
      \<lparr>invoice_id = ''c'', invoice_date = 21565440, total_price = 4, country = 0\<rparr>,
      \<lparr>invoice_id = ''d'', invoice_date = 21564000, total_price = 1, country = 1\<rparr>,
      \<lparr>invoice_id = ''e'', invoice_date = 21564000, total_price = 2, country = 2\<rparr>]"

definition one_country :: "8 word txn list" where
  "one_country =
     [\<lparr>invoice_id = ''a'', invoice_date = 21564000, total_price = 3, country = 0\<rparr>,
      \<lparr>invoice_id = ''b'', invoice_date = 21564000, total_price = 7, country = 5\<rparr>,
      \<lparr>invoice_id = ''c'', invoice_date = 21565440, total_price = 4, country = 0\<rparr>]"



section \<open>Lemmas: country codes\<close>

lemma set_unique [simp]: "set (unique xs) = set xs"
  by (induction xs rule: unique.induct) auto

lemma distinct_unique [simp]: "distinct (unique xs)"
  by (induction xs rule: unique.induct) auto

lemma takeWhile_filter_set:
  assumes "x \<noteq> y"
  shows "set (takeWhile (\<lambda>z. z \<noteq> x) (filter (\<lambda>z. z \<noteq> y) ys)) = set (takeWhile (\<lambda>z. z \<noteq> x) ys) - {y}"
proof (induction ys)
  case Nil
  show ?case by simp
next
  case (Cons a ys)
  show ?case
  proof (cases "a = x")
    case True
    with assms show ?thesis by simp
  next
    case False
    note ax = this
    show ?thesis
    proof (cases "a = y")
      case True
      with ax Cons show ?thesis by simp
    next
      case False
      with ax Cons show ?thesis by auto
    qed
  qed
qed

lemma card_insert_Diff: "finite S \<Longrightarrow> card (insert y S) = Suc (card (S - {y}))"
  by (metis card_insert_disjoint finite_Diff insert_Diff_single Diff_iff singletonI)

lemma first_seen_rank_Cons:
  "first_seen_rank (y # ys) x =
     (if x = y then 0 else Suc (first_seen_rank (filter (\<lambda>z. z \<noteq> y) ys) x))"
proof (cases "x = y")
  case True
  then show ?thesis by (simp add: first_seen_rank_def)
next
  case False
  then have "first_seen_rank (y # ys) x = card (insert y (set (takeWhile (\<lambda>z. z \<noteq> x) ys)))"
    by (simp add: first_seen_rank_def)
  also have "\<dots> = Suc (card (set (takeWhile (\<lambda>z. z \<noteq> x) ys) - {y}))"
    by (rule card_insert_Diff) simp
  also have "\<dots> = Suc (first_seen_rank (filter (\<lambda>z. z \<noteq> y) ys) x)"
    using False by (simp add: first_seen_rank_def takeWhile_filter_set)
  finally show ?thesis using False by simp
qed

lemma map_of_mapping:
  "map_of (map (\<lambda>(i, v). (v, i)) (enumerate n (unique xs))) x =
     (if x \<in> set xs then Some (n + first_seen_rank xs x) else None)"
proof (induction xs arbitrary: n rule: unique.induct)
  case 1
  then show ?case by simp
next
  case (2 y ys)
  show ?case
  proof (cases "x = y")
    case True
    then show ?thesis by (simp add: first_seen_rank_Cons)
  next
    case False
    with 2[of "Suc n"] show ?thesis
      by (simp add: first_seen_rank_Cons)
  qed
qed

lemma unique_nth_rank:
  "x \<in> set xs \<Longrightarrow> first_seen_rank xs x < length (unique xs) \<and> unique xs ! first_seen_rank xs x = x"
proof (induction xs rule: unique.induct)
  case 1
  then show ?case by simp
next
  case (2 y ys)
  show ?case
  proof (cases "x = y")
    case True
    then show ?thesis by (simp add: first_seen_rank_Cons)
  next
    case False
    with 2 show ?thesis
      by (simp add: first_seen_rank_Cons)
  qed
qed

lemma those_map_Some: "those (map (\<lambda>x. Some (f x)) xs) = Some (map f xs)"
  by (induction xs) simp_all

lemma encode_rows_total:
  assumes "\<forall>r \<in> set rs. country r \<in> set xs"
  shows "encode_country_column (map (\<lambda>(i, v). (v, i)) (enumerate 0 (unique xs))) rs =
         Inr (map (encode_row xs) rs)"
proof -
  let ?m = "map (\<lambda>(i, v). (v, i)) (enumerate 0 (unique xs))"
  have codes: "map (\<lambda>r. map_of ?m (country r)) rs = map (\<lambda>r. Some (first_seen_rank xs (country r))) rs"
    using assms by (intro map_cong) (simp_all add: map_of_mapping)
  have z: "zip rs (map (\<lambda>r. first_seen_rank xs (country r)) rs) =
           map (\<lambda>r. (r, first_seen_rank xs (country r))) rs"
    by (induction rs) simp_all
  show ?thesis
    unfolding encode_country_column_def Let_def codes those_map_Some
    by (simp add: z encode_row_def comp_def)
qed

lemma encode_after_filter:
  "filter_countries data cl = (d, m) \<Longrightarrow> encode_country_column m d = Inr (map (encode_row (map country d)) d)"
  by (auto simp: filter_countries_def Let_def intro!: encode_rows_total)

lemma first_seen_rank_less: "x \<in> set xs \<Longrightarrow> first_seen_rank xs x < card (set xs)"
  unfolding first_seen_rank_def
proof (rule psubset_card_mono)
  assume "x \<in> set xs"
  have "set (takeWhile (\<lambda>y. y \<noteq> x) xs) \<subseteq> set xs" by (auto dest: set_takeWhileD)
  moreover have "x \<notin> set (takeWhile (\<lambda>y. y \<noteq> x) xs)" by (auto dest: set_takeWhileD)
  ultimately show "set (takeWhile (\<lambda>y. y \<noteq> x) xs) \<subset> set xs" using \<open>x \<in> set xs\<close> by blast
qed simp

lemma sint_astype: "sint (astype_int8 i) = (int i + 128) mod 256 - 128"
proof -
  have "(int (i mod 256) + 128) mod 256 = (int i + 128) mod 256"
    by (simp add: zmod_int mod_add_left_eq)
  then show ?thesis
    unfolding astype_int8_def
    by (simp add: sint_uint signed_take_bit_eq_take_bit_shift take_bit_eq_mod unsigned_of_nat)
qed

lemma sint_astype_small: "i < 128 \<Longrightarrow> sint (astype_int8 i) = int i"
  by (simp add: sint_astype)

section \<open>Lemmas: grouping\<close>

lemma map_fst_groupby_sum: "map fst (groupby_sum key val xs) = sort (remdups (map key xs))"
  by (simp add: groupby_sum_def comp_def)

lemma set_sort_remdups_filter:
  "filter P (sort (remdups (map key xs))) = sort (remdups (map key (filter (\<lambda>x. P (key x)) xs)))"
  by (simp add: filter_sort remdups_filter[symmetric] filter_map comp_def)

lemma filter_groupby_sum:
  "filter (\<lambda>(k, v). P k) (groupby_sum key val xs) = groupby_sum key val (filter (\<lambda>x. P (key x)) xs)"
proof -
  have "filter (\<lambda>(k, v). P k) (groupby_sum key val xs) =
        map (\<lambda>k. (k, sum_list (map val (filter (\<lambda>x. key x = k) xs)))) (filter P (sort (remdups (map key xs))))"
    by (simp add: groupby_sum_def filter_map comp_def)
  also have "\<dots> = map (\<lambda>k. (k, sum_list (map val (filter (\<lambda>x. key x = k) (filter (\<lambda>x. P (key x)) xs)))))
                    (filter P (sort (remdups (map key xs))))"
  proof (rule map_cong[OF refl])
    fix k assume "k \<in> set (filter P (sort (remdups (map key xs))))"
    then have "P k" by simp
    then have "filter (\<lambda>x. key x = k) (filter (\<lambda>x. P (key x)) xs) = filter (\<lambda>x. key x = k) xs"
      by (auto intro: filter_cong)
    then show "(k, sum_list (map val (filter (\<lambda>x. key x = k) xs))) =
               (k, sum_list (map val (filter (\<lambda>x. key x = k) (filter (\<lambda>x. P (key x)) xs))))"
      by simp
  qed
  finally show ?thesis
    by (simp add: set_sort_remdups_filter groupby_sum_def)
qed

lemma sum_list_filter_disj:
  "(\<And>x. x \<in> set xs \<Longrightarrow> \<not> (P x \<and> Q x)) \<Longrightarrow>
   sum_list (map (val :: 'a \<Rightarrow> rat) (filter (\<lambda>x. P x \<or> Q x) xs)) =
   sum_list (map val (filter P xs)) + sum_list (map val (filter Q xs))"
  by (induction xs) auto

lemma sum_list_groups:
  "distinct ks \<Longrightarrow>
   sum_list (map (\<lambda>k. sum_list (map (val :: 'a \<Rightarrow> rat) (filter (\<lambda>x. key x = k) xs))) ks) =
   sum_list (map val (filter (\<lambda>x. key x \<in> set ks) xs))"
proof (induction ks)
  case Nil
  then show ?case by simp
next
  case (Cons k ks)
  have "sum_list (map val (filter (\<lambda>x. key x \<in> set (k # ks)) xs)) =
        sum_list (map val (filter (\<lambda>x. key x = k \<or> key x \<in> set ks) xs))"
    by simp
  also have "\<dots> = sum_list (map val (filter (\<lambda>x. key x = k) xs)) + sum_list (map val (filter (\<lambda>x. key x \<in> set ks) xs))"
    using Cons.prems by (intro sum_list_filter_disj) auto
  finally show ?case using Cons by simp
qed

lemma sort_remdups_map_sort:
  "sort (remdups (map g (sort (remdups ks)))) = sort (remdups (map g ks))"
  by (rule sorted_distinct_set_unique) simp_all

lemma groupby_sum_regroup:
  "groupby_sum (\<lambda>(k, v). g k) snd (groupby_sum key val xs) = groupby_sum (\<lambda>x. g (key x)) val xs"
proof -
  let ?G = "groupby_sum key val xs"
  let ?ks = "sort (remdups (map key xs))"
  have keys: "sort (remdups (map (\<lambda>(k, v). g k) ?G)) = sort (remdups (map (\<lambda>x. g (key x)) xs))"
  proof -
    have "map (\<lambda>(k, v). g k) ?G = map g ?ks"
      by (simp add: groupby_sum_def comp_def)
    moreover have "map (\<lambda>x. g (key x)) xs = map g (map key xs)" by simp
    ultimately show ?thesis by (simp only: sort_remdups_map_sort)
  qed
  have vals: "sum_list (map snd (filter (\<lambda>(k, v). g k = t) ?G)) =
              sum_list (map val (filter (\<lambda>x. g (key x) = t) xs))" for t
  proof -
    let ?K = "filter (\<lambda>k. g k = t) ?ks"
    have "map snd (filter (\<lambda>(k, v). g k = t) ?G) =
          map (\<lambda>k. sum_list (map val (filter (\<lambda>x. key x = k) xs))) ?K"
      by (simp add: groupby_sum_def filter_map comp_def)
    moreover have "distinct ?K" by simp
    moreover have "filter (\<lambda>x. key x \<in> set ?K) xs = filter (\<lambda>x. g (key x) = t) xs"
      by (rule filter_cong) auto
    ultimately show ?thesis by (simp add: sum_list_groups)
  qed
  have "groupby_sum (\<lambda>(k, v). g k) snd ?G =
        map (\<lambda>t. (t, sum_list (map snd (filter (\<lambda>(k, v). g k = t) ?G)))) (sort (remdups (map (\<lambda>(k, v). g k) ?G)))"
    unfolding groupby_sum_def[of "\<lambda>(k, v). g k" snd] by (simp add: case_prod_unfold)
  then show ?thesis
    unfolding keys vals by (simp add: groupby_sum_def)
qed

lemma agg_data_1_eq:
  "agg_data_1 (agg_by_invoice data) c =
   groupby_sum invoice_date total_price (filter (\<lambda>r. sint (country r) = c) data)"
proof -
  let ?key = "\<lambda>r. (invoice_date r, invoice_id r, sint (country r))"
  let ?obs = "filter (\<lambda>r. sint (country r) = c) data"
  have sel: "filter (\<lambda>((t, i, k), v). k = c) (agg_by_invoice data) = groupby_sum ?key total_price ?obs"
    using filter_groupby_sum[of "\<lambda>(t, i, k). k = c" ?key total_price data]
    by (simp add: agg_by_invoice_def case_prod_unfold)
  have key: "(\<lambda>((t, i, k), v). t) = (\<lambda>(k, v). fst k)"
    by (simp add: fun_eq_iff)
  have "groupby_sum (\<lambda>(k, v). fst k) snd (groupby_sum ?key total_price ?obs) =
        groupby_sum invoice_date total_price ?obs"
    using groupby_sum_regroup[of fst ?key total_price ?obs] by simp
  then show ?thesis
    unfolding agg_data_1_def sel key .
qed

section \<open>Lemmas: outlier removal, resampling, interpolation\<close>

lemma dropna_mark:
  "dropna (map (\<lambda>(t, v). (t, if P v then None else Some v)) s) = filter (\<lambda>(t, v). \<not> P v) s"
  by (induction s) auto

lemma quantile_Nil [simp]: "quantile [] q = None"
  by (simp add: quantile_def)

lemma quantile_Some: "vs \<noteq> [] \<Longrightarrow> \<exists>x. quantile vs q = Some x"
  by (simp add: quantile_def Let_def)

lemma iqr_outlier_removal_Nil [simp]: "iqr_outlier_removal [] = []"
  by (simp add: iqr_outlier_removal_def)

lemma iqr_eq_spec: "iqr_outlier_removal s = outlier_filter_spec s"
proof (cases "s = []")
  case True
  then show ?thesis by (simp add: outlier_filter_spec_def)
next
  case False
  then obtain Q1 Q3 where q: "quantile (map snd s) (1 / 4) = Some Q1" "quantile (map snd s) (3 / 4) = Some Q3"
    using quantile_Some[of "map snd s" "1 / 4"] quantile_Some[of "map snd s" "3 / 4"] by auto
  have "iqr_outlier_removal s =
        dropna (map (\<lambda>(t, v). (t, if v < Q1 - 3 * (Q3 - Q1) \<or> Q3 + 3 * (Q3 - Q1) < v then None else Some v)) s)"
    by (simp add: iqr_outlier_removal_def q fsub_def fadd_def fscale_def flt_def)
  also have "\<dots> = filter (\<lambda>(t, v). \<not> (v < Q1 - 3 * (Q3 - Q1) \<or> Q3 + 3 * (Q3 - Q1) < v)) s"
    by (rule dropna_mark)
  also have "\<dots> = filter (\<lambda>(t, v). Q1 - 3 * (Q3 - Q1) \<le> v \<and> v \<le> Q3 + 3 * (Q3 - Q1)) s"
    by (rule filter_cong) (auto simp: not_less)
  finally show ?thesis by (simp add: outlier_filter_spec_def q)
qed

lemma set_iqr_subset: "set (iqr_outlier_removal s) \<subseteq> set s"
  by (auto simp: iqr_eq_spec outlier_filter_spec_def split: option.splits)

lemma quantile_unfold:
  assumes "vs \<noteq> []"
  shows "quantile vs q =
     Some (if nat \<lfloor>q * of_nat (length vs - 1)\<rfloor> + 1 < length vs
           then sort vs ! nat \<lfloor>q * of_nat (length vs - 1)\<rfloor>
                + (q * of_nat (length vs - 1) - of_int \<lfloor>q * of_nat (length vs - 1)\<rfloor>)
                  * (sort vs ! (nat \<lfloor>q * of_nat (length vs - 1)\<rfloor> + 1) - sort vs ! nat \<lfloor>q * of_nat (length vs - 1)\<rfloor>)
           else sort vs ! nat \<lfloor>q * of_nat (length vs - 1)\<rfloor>)"
  unfolding quantile_def Let_def by (simp only: assms if_False length_sort)

lemma some_value_within_bounds:
  fixes vs :: "rat list"
  assumes ne: "vs \<noteq> []"
    and q1: "quantile vs (1 / 4) = Some Q1" and q3: "quantile vs (3 / 4) = Some Q3"
  shows "\<exists>v \<in> set vs. Q1 - 3 * (Q3 - Q1) \<le> v \<and> v \<le> Q3 + 3 * (Q3 - Q1)"
proof -
  define n where "n = length vs"
  define srt where "srt = sort vs"
  define p1 :: rat where "p1 = 1 / 4 * of_nat (n - 1)"
  define p3 :: rat where "p3 = 3 / 4 * of_nat (n - 1)"
  define i1 where "i1 = nat \<lfloor>p1\<rfloor>"
  define i3 where "i3 = nat \<lfloor>p3\<rfloor>"
  define f1 where "f1 = p1 - of_int \<lfloor>p1\<rfloor>"
  define f3 where "f3 = p3 - of_int \<lfloor>p3\<rfloor>"
  have n: "0 < n" using ne by (simp add: n_def)
  have srt: "sorted srt" "length srt = n" "set srt = set vs"
    by (simp_all add: srt_def n_def)
  have p: "0 \<le> p1" "p1 \<le> p3" "p3 \<le> of_nat (n - 1)"
    by (simp_all add: p1_def p3_def)
  have fl1: "0 \<le> \<lfloor>p1\<rfloor>" using p(1) by simp
  have fl13: "\<lfloor>p1\<rfloor> \<le> \<lfloor>p3\<rfloor>" using p(2) by (rule floor_mono)
  have fl3: "\<lfloor>p3\<rfloor> \<le> int (n - 1)"
  proof -
    have "\<lfloor>p3\<rfloor> \<le> \<lfloor>(of_nat (n - 1) :: rat)\<rfloor>" using p(3) by (rule floor_mono)
    then show ?thesis by simp
  qed
  have i: "i1 \<le> i3" "i3 < n"
    using fl1 fl13 fl3 n by (simp_all add: i1_def i3_def nat_le_eq_zle)
  have f: "0 \<le> f1" "f1 < 1" "0 \<le> f3" "f3 < 1" "f1 \<le> p1"
    using fl1 by (simp_all add: f1_def f3_def) linarith+
  have Q1: "Q1 = (if i1 + 1 < n then srt ! i1 + f1 * (srt ! (i1 + 1) - srt ! i1) else srt ! i1)"
    using q1 unfolding quantile_unfold[OF ne]
    by (simp only: option.inject n_def[symmetric] srt_def[symmetric] p1_def[symmetric] i1_def[symmetric] f1_def[symmetric])
  have Q3: "Q3 = (if i3 + 1 < n then srt ! i3 + f3 * (srt ! (i3 + 1) - srt ! i3) else srt ! i3)"
    using q3 unfolding quantile_unfold[OF ne]
    by (simp only: option.inject n_def[symmetric] srt_def[symmetric] p3_def[symmetric] i3_def[symmetric] f3_def[symmetric])
  have step: "srt ! k \<le> srt ! (k + 1)" if "k + 1 < n" for k
    using srt(1,2) that by (intro sorted_nth_mono) simp_all
  have lowQ: "srt ! k \<le> (if k + 1 < n then srt ! k + g * (srt ! (k + 1) - srt ! k) else srt ! k)"
    if "0 \<le> g" for k and g :: rat
    using that step[of k] by (simp add: mult_nonneg_nonneg)
  have highQ: "srt ! k + g * (srt ! (k + 1) - srt ! k) \<le> srt ! (k + 1)"
    if "k + 1 < n" "0 \<le> g" "g < 1" for k and g :: rat
  proof -
    have "g * (srt ! (k + 1) - srt ! k) \<le> 1 * (srt ! (k + 1) - srt ! k)"
      using that step[of k] by (intro mult_right_mono) simp_all
    then show ?thesis by simp
  qed
  show ?thesis
  proof (cases "i1 < i3")
    case True
    then have k: "i1 + 1 < n" "i1 + 1 \<le> i3" using i by simp_all
    let ?v = "srt ! (i1 + 1)"
    have "Q1 \<le> ?v"
      using highQ[OF k(1) f(1,2)] k(1) by (simp add: Q1)
    moreover have "?v \<le> srt ! i3"
      using srt(1,2) k(2) i(2) by (intro sorted_nth_mono) simp_all
    moreover have "srt ! i3 \<le> Q3"
      unfolding Q3 using f(3) by (rule lowQ)
    moreover have "?v \<in> set vs"
      using k(1) srt(2,3) nth_mem[of "i1 + 1" srt] by simp
    ultimately show ?thesis
      by (intro bexI[of _ ?v]) auto
  next
    case False
    then have e: "i3 = i1" using i(1) by simp
    let ?v = "srt ! i1"
    have mem: "?v \<in> set vs"
      using i srt(2,3) nth_mem[of i1 srt] by simp
    show ?thesis
    proof (cases "i1 + 1 < n")
      case False
      then have "Q1 = ?v" "Q3 = ?v" by (simp_all add: Q1 Q3 e)
      then show ?thesis using mem by (intro bexI[of _ ?v]) auto
    next
      case True
      define d where "d = srt ! (i1 + 1) - srt ! i1"
      have d: "0 \<le> d" using step[OF True] by (simp add: d_def)
      have Q: "Q1 = ?v + f1 * d" "Q3 = ?v + f3 * d"
        using True by (simp_all add: Q1 Q3 e d_def)
      have "int (nat \<lfloor>p3\<rfloor>) = int (nat \<lfloor>p1\<rfloor>)"
        using e by (simp add: i1_def i3_def)
      moreover have "0 \<le> \<lfloor>p3\<rfloor>" using fl1 fl13 by linarith
      ultimately have "\<lfloor>p3\<rfloor> = \<lfloor>p1\<rfloor>"
        using fl1 by (simp only: int_nat_eq if_True)
      then have diff: "f3 - f1 = p3 - p1" by (simp add: f1_def f3_def)
      have "p3 - p1 = 2 * p1" by (simp add: p1_def p3_def)
      with diff f(5) p(1) have g: "f1 \<le> 3 * (f3 - f1)" "0 \<le> f3 - f1" by simp_all
      have "f1 * d \<le> 3 * (f3 - f1) * d"
        using g(1) d by (rule mult_right_mono)
      then have lo: "Q1 - 3 * (Q3 - Q1) \<le> ?v"
        by (simp add: Q algebra_simps)
      have "0 \<le> f3 * d" "0 \<le> (f3 - f1) * d"
        using f(3) g(2) d by (simp_all add: mult_nonneg_nonneg)
      then have hi: "?v \<le> Q3 + 3 * (Q3 - Q1)"
        by (simp add: Q algebra_simps)
      from lo hi mem show ?thesis by (intro bexI[of _ ?v]) auto
    qed
  qed
qed

lemma iqr_outlier_removal_nonempty: "s \<noteq> [] \<Longrightarrow> iqr_outlier_removal s \<noteq> []"
proof -
  assume ne: "s \<noteq> []"
  then obtain Q1 Q3 where q: "quantile (map snd s) (1 / 4) = Some Q1" "quantile (map snd s) (3 / 4) = Some Q3"
    using quantile_Some[of "map snd s" "1 / 4"] quantile_Some[of "map snd s" "3 / 4"] by auto
  from ne have "map snd s \<noteq> []" by simp
  from some_value_within_bounds[OF this q]
  obtain x where "x \<in> set s" "Q1 - 3 * (Q3 - Q1) \<le> snd x" "snd x \<le> Q3 + 3 * (Q3 - Q1)"
    by auto
  then have "x \<in> set (outlier_filter_spec s)"
    by (auto simp: outlier_filter_spec_def q)
  then show ?thesis by (auto simp: iqr_eq_spec)
qed

lemma interp_from_known [simp]: "interp_from a j (map Some vs) = map Some vs"
  by (induction vs arbitrary: a j) simp_all

lemma interpolate_known [simp]: "interpolate (map Some vs) = map Some vs"
  by (cases vs) simp_all

lemma min_ts_Min: "ts \<noteq> [] \<Longrightarrow> min_ts ts = Min (set ts)"
  by (cases ts) (simp_all add: Min.set_eq_fold[symmetric])

lemma max_ts_Max: "ts \<noteq> [] \<Longrightarrow> max_ts ts = Max (set ts)"
  by (cases ts) (simp_all add: Max.set_eq_fold[symmetric])

lemma mono_day_of: "mono day_of"
  by (auto simp: mono_def day_of_def intro: zdiv_mono1)

lemma day_of_min_ts: "ts \<noteq> [] \<Longrightarrow> day_of (min_ts ts) = Min (day_of ` set ts)"
  by (simp add: min_ts_Min mono_Min_commute[OF mono_day_of])

lemma day_of_max_ts: "ts \<noteq> [] \<Longrightarrow> day_of (max_ts ts) = Max (day_of ` set ts)"
  by (simp add: max_ts_Max mono_Max_commute[OF mono_day_of])

lemma resample_sum_eq:
  "s \<noteq> [] \<Longrightarrow>
   resample_sum s = Inr (map (\<lambda>d. (midnight d, Some (day_total s d))) [first_day s .. last_day s])"
  by (simp add: resample_sum_def day_total_def first_day_def last_day_def day_of_min_ts day_of_max_ts image_image)

lemma resample_sum_Nil [simp]: "resample_sum [] = Inl AttributeError"
  by (simp add: resample_sum_def)

lemma aggregate_country_eq:
  "aggregate_country (agg_by_invoice data) c =
     (if surviving data c = [] then Inl AttributeError else Inr (partition_rows data c))"
proof (cases "surviving data c = []")
  case True
  then show ?thesis
    by (simp add: aggregate_country_def surviving_def)
next
  case False
  let ?s = "surviving data c"
  let ?ds = "[first_day ?s .. last_day ?s]"
  let ?r = "map (\<lambda>d. (midnight d, Some (day_total ?s d))) ?ds"
  have r: "resample_sum ?s = Inr ?r"
    using False by (rule resample_sum_eq)
  have v: "map snd ?r = map Some (map (day_total ?s) ?ds)"
    by (simp add: comp_def)
  have f: "map fst ?r = map midnight ?ds"
    by (simp add: comp_def)
  have "aggregate_country (agg_by_invoice data) c =
        Inr (map (\<lambda>(t, v). (t, v, c))
              (zip (map midnight ?ds) (map (map_option round_half_even) (map Some (map (day_total ?s) ?ds)))))"
    unfolding aggregate_country_def Let_def surviving_def[symmetric] r sum.case v f interpolate_known ..
  also have "\<dots> = Inr (partition_rows data c)"
    by (simp add: partition_rows_def zip_map_map comp_def zip_same_conv_map)
  finally show ?thesis using False by simp
qed

section \<open>Lemmas: the aggregated table\<close>

lemma aggregate_data_eq:
  "aggregate_data data =
     (if surviving data 0 = [] \<or> surviving data 1 = [] \<or> surviving data 2 = [] then Inl AttributeError
      else Inr (add_id (partitions data)))"
  by (simp add: aggregate_data_def aggregate_country_eq partitions_def)

lemma aggregate_data_rows:
  "surviving data 0 \<noteq> [] \<Longrightarrow> surviving data 1 \<noteq> [] \<Longrightarrow> surviving data 2 \<noteq> [] \<Longrightarrow>
   aggregate_data data = Inr (add_id (partitions data))"
  by (simp add: aggregate_data_eq)

lemma aggregate_data_Inr:
  "aggregate_data data = Inr tab \<Longrightarrow> tab = add_id (partitions data)"
  by (simp add: aggregate_data_eq split: if_splits)

lemma cols_add_id: "map cols (add_id tab) = tab"
proof -
  have "map cols (add_id tab) = map snd (enumerate 0 tab)"
    unfolding add_id_def map_map by (rule map_cong) (auto simp: cols_def)
  then show ?thesis by (simp add: map_snd_enumerate)
qed

lemma ids_add_id: "map id' (add_id tab) = [0..<length tab]"
proof -
  have "map id' (add_id tab) = map fst (enumerate 0 tab)"
    unfolding add_id_def map_map by (rule map_cong) auto
  then show ?thesis by (simp add: map_fst_enumerate)
qed

lemma country'_cols: "country' r = snd (snd (cols r))"
  by (simp add: cols_def)

lemma invoice_date'_cols: "invoice_date' r = fst (cols r)"
  by (simp add: cols_def)


lemma country_partition_rows: "x \<in> set (partition_rows data c) \<Longrightarrow> snd (snd x) = c"
  by (auto simp: partition_rows_def)










lemma groupby_sum_Nil [simp]: "groupby_sum key val [] = []"
  by (simp add: groupby_sum_def)

lemma surviving_no_rows: "\<forall>r \<in> set data. sint (country r) \<noteq> c \<Longrightarrow> surviving data c = []"
proof -
  assume "\<forall>r \<in> set data. sint (country r) \<noteq> c"
  then have "filter (\<lambda>r. sint (country r) = c) data = []"
    by (simp add: filter_empty_conv)
  then show ?thesis
    by (simp add: surviving_def agg_data_1_eq)
qed

lemma groupby_sum_eq_Nil: "groupby_sum key val xs = [] \<longleftrightarrow> xs = []"
proof -
  have "groupby_sum key val xs = [] \<longleftrightarrow> set (sort (remdups (map key xs))) = {}"
    unfolding groupby_sum_def by (simp only: map_is_Nil_conv set_empty)
  then show ?thesis by simp
qed

lemma surviving_nonempty_iff:
  "surviving data c \<noteq> [] \<longleftrightarrow> (\<exists>r \<in> set data. sint (country r) = c)"
proof
  assume "surviving data c \<noteq> []"
  then show "\<exists>r \<in> set data. sint (country r) = c"
    using surviving_no_rows[of data c] by blast
next
  assume "\<exists>r \<in> set data. sint (country r) = c"
  then have "filter (\<lambda>r. sint (country r) = c) data \<noteq> []"
    by (simp add: filter_empty_conv)
  then have "agg_data_1 (agg_by_invoice data) c \<noteq> []"
    by (simp add: agg_data_1_eq groupby_sum_eq_Nil)
  then show "surviving data c \<noteq> []"
    unfolding surviving_def by (rule iqr_outlier_removal_nonempty)
qed

lemma surviving_empty_iff:
  "surviving data c = [] \<longleftrightarrow> (\<forall>r \<in> set data. sint (country r) \<noteq> c)"
  using surviving_nonempty_iff[of data c] by blast

lemma aggregate_data_raises_iff:
  "aggregate_data data = Inl AttributeError \<longleftrightarrow> (\<exists>c \<in> {0, 1, 2}. \<forall>r \<in> set data. sint (country r) \<noteq> c)"
  by (simp add: aggregate_data_eq surviving_empty_iff)

lemma aggregate_data_returns_iff:
  "(\<exists>tab. aggregate_data data = Inr tab) \<longleftrightarrow> (\<forall>c \<in> {0, 1, 2}. \<exists>r \<in> set data. sint (country r) = c)"
  by (simp add: aggregate_data_eq surviving_empty_iff)

lemma surviving_filter_codes:
  "c \<in> {0, 1, 2} \<Longrightarrow> surviving (filter (\<lambda>r. sint (country r) \<in> {0, 1, 2}) data) c = surviving data c"
proof -
  assume c: "c \<in> {0, 1, 2}"
  have "filter (\<lambda>r. sint (country r) = c) (filter (\<lambda>r. sint (country r) \<in> {0, 1, 2}) data) =
        filter (\<lambda>r. sint (country r) = c) data"
    using c by (auto intro: filter_cong)
  then show ?thesis
    by (simp only: surviving_def agg_data_1_eq)
qed

lemma aggregate_data_filter_codes:
  "aggregate_data (filter (\<lambda>r. sint (country r) \<in> {0, 1, 2}) data) = aggregate_data data"
  by (simp only: aggregate_data_eq partitions_def partition_rows_def surviving_filter_codes insertI1 insertI2)

lemma country_partitions: "x \<in> set (partitions data) \<Longrightarrow> snd (snd x) \<in> {0, 1, 2}"
  by (auto simp: partitions_def dest: country_partition_rows)

section \<open>Lemmas: the example inputs\<close>

lemma letters_eq_iff [simp]: "letters i = letters j \<longleftrightarrow> i = j"
  by (auto simp: letters_def replicate_eq_replicate)

lemma distinct_many_names: "distinct many_names"
  by (simp add: many_names_def distinct_map inj_on_def)

lemma length_many_names: "length many_names = 129"
  by (simp add: many_names_def)

lemma card_many_names: "card (set many_names) = 129"
  by (simp add: distinct_card[OF distinct_many_names] length_many_names)

lemma country_many_countries: "map country many_countries = many_names"
  by (simp add: many_countries_def comp_def)

lemma many_countries_nonempty: "many_countries \<noteq> []"
  using length_many_names by (auto simp: many_countries_def)

lemma filter_many_countries:
  "filter_countries many_countries many_names =
     (many_countries, map (\<lambda>(i, v). (v, i)) (enumerate 0 (unique many_names)))"
proof -
  have "filter (\<lambda>r. country r \<in> set many_names) many_countries = many_countries"
    by (simp add: many_countries_def filter_map comp_def)
  then show ?thesis
    by (simp add: filter_countries_def country_many_countries)
qed

lemma many_names_snoc: "many_names = map letters [1..<129] @ [letters 129]"
proof -
  have "[1..<130] = [1..<129] @ [129::nat]"
    using upt_Suc_append[of 1 129] by simp
  then show ?thesis by (simp add: many_names_def)
qed

lemma last_many_countries: "country (last many_countries) = letters 129"
proof -
  have "country (last many_countries) = last (map country many_countries)"
    using many_countries_nonempty by (simp add: last_map)
  then show ?thesis
    by (simp add: country_many_countries many_names_snoc)
qed

lemma rank_last_name: "first_seen_rank many_names (letters 129) = 128"
proof -
  have "takeWhile (\<lambda>y. y \<noteq> letters 129) many_names = map letters [1..<129]"
    unfolding many_names_snoc
    by (subst takeWhile_append2) auto
  moreover have "distinct (map letters [1..<129])"
    by (simp add: distinct_map inj_on_def)
  moreover have "length (map letters [1..<129]) = 128" by simp
  ultimately show ?thesis
    unfolding first_seen_rank_def by (simp only: distinct_card)
qed

lemma sint_code_last: "sint (country (encode_row many_names (last many_countries))) = - 128"
  by (simp add: encode_row_def last_many_countries rank_last_name sint_astype)

lemma aggregate_data_stray_code:
  "aggregate_data stray_code =
     Inr [\<lparr>invoice_date' = 21564000, total_price' = Some 3, country' = 0, id' = 0\<rparr>,
          \<lparr>invoice_date' = 21565440, total_price' = Some 4, country' = 0, id' = 1\<rparr>,
          \<lparr>invoice_date' = 21564000, total_price' = Some 1, country' = 1, id' = 2\<rparr>,
          \<lparr>invoice_date' = 21564000, total_price' = Some 2, country' = 2, id' = 3\<rparr>]"
  by code_simp

section \<open>Claims\<close>

subsection \<open>C1: days without observation\<close>

text \<open>
  Claim C1 says that a day without observation gets the linear interpolation of its
  neighbours, 15.0 in the two-row example. The code does not do that: the daily sum of a
  bin without rows is 0, not NaN, so \<^verbatim>\<open>interpolate()\<close> finds nothing to fill. On the
  rows (2011-01-01, inv1, UK, 10) and (2011-01-03, inv2, UK, 20), together with one row of
  France and one of Germany so that no partition is empty, the pipeline returns five rows,
  and the total of UK on 2011-01-02 is 0. On the two rows alone, with the allow-list UK, the
  call raises in the turn of country 1.
\<close>

theorem two_days_gap_is_zero:
  "transform_with [''UK'', ''France'', ''Germany''] two_days_three_countries =
     Inr [\<lparr>invoice_date' = 21564000, total_price' = Some 10, country' = 0, id' = 0\<rparr>,
          \<lparr>invoice_date' = 21565440, total_price' = Some 0, country' = 0, id' = 1\<rparr>,
          \<lparr>invoice_date' = 21566880, total_price' = Some 20, country' = 0, id' = 2\<rparr>,
          \<lparr>invoice_date' = 21564000, total_price' = Some 5, country' = 1, id' = 3\<rparr>,
          \<lparr>invoice_date' = 21564000, total_price' = Some 7, country' = 2, id' = 4\<rparr>]
   \<and> transform_with [''UK''] two_days = Inl AttributeError"
  by code_simp

subsection \<open>C2: the series that the Outlier Filter sees\<close>

text \<open>
  Claim C2, as stated, says that the series given to the Outlier Filter has one value for
  each calendar day. It fails: \<^verbatim>\<open>invoice_date\<close> keeps the time of day, and the second
  grouping is by that column. Two invoices of 2011-01-01, at 10:00 and at 11:00, give two
  values of the same day.
\<close>

theorem same_day_two_values:
  "agg_data_1 (agg_by_invoice same_day) 0 = [(21564600, 10), (21564660, 25)]
   \<and> day_of 21564600 = 14975 \<and> day_of 21564660 = 14975"
  by code_simp

text \<open>
  Claim C2, amended. Before the Outlier Filter, the totals of a country are grouped by the
  invoice timestamp alone: the series has exactly one row for each distinct timestamp of the
  country's rows, in ascending order, and its value is the sum of the prices of the country's
  rows at that timestamp, over all invoices.
\<close>

theorem series_per_timestamp:
  "map fst (agg_data_1 (agg_by_invoice data) c) =
     sort (remdups (map invoice_date (filter (\<lambda>r. sint (country r) = c) data)))
   \<and> (\<forall>(t, v) \<in> set (agg_data_1 (agg_by_invoice data) c).
         v = sum_list (map total_price (filter (\<lambda>r. sint (country r) = c \<and> invoice_date r = t) data)))"
proof -
  have "filter (\<lambda>r. invoice_date r = t) (filter (\<lambda>r. sint (country r) = c) data) =
        filter (\<lambda>r. sint (country r) = c \<and> invoice_date r = t) data" for t
    by (simp add: conj_commute)
  then show ?thesis
    by (auto simp: agg_data_1_eq map_fst_groupby_sum) (auto simp: groupby_sum_def)
qed

theorem series_per_timestamp_witness:
  "map fst (agg_data_1 (agg_by_invoice same_day) 0) = [21564600, 21564660]
   \<and> sort (remdups (map invoice_date (filter (\<lambda>r. sint (country r) = 0) same_day))) = [21564600, 21564660]
   \<and> (21564660, 25) \<in> set (agg_data_1 (agg_by_invoice same_day) 0)
   \<and> sum_list (map total_price (filter (\<lambda>r. sint (country r) = 0 \<and> invoice_date r = 21564660) same_day)) = 25"
proof -
  have s: "sort (remdups (map invoice_date (filter (\<lambda>r. sint (country r) = 0) same_day))) = [21564600, 21564660]"
    by code_simp
  have m: "(21564660, 25) \<in> set (agg_data_1 (agg_by_invoice same_day) 0)"
    by code_simp
  from series_per_timestamp[of same_day 0] s m show ?thesis
    by auto
qed

subsection \<open>C3: the Outlier Filter\<close>

text \<open>
  Claim C3. \<^verbatim>\<open>iqr_outlier_removal\<close> computes Q1 and Q3 once, as the 25th and the 75th
  percentile of the whole input series, and returns the input rows whose value lies within
  \<open>[Q1 - 3 * IQR, Q3 + 3 * IQR]\<close>, bounds included, unchanged and in their order: the rows
  strictly outside are dropped, none is clamped, and the quantiles are not computed again
  on the result.
\<close>

theorem outlier_filter_single_pass: "iqr_outlier_removal s = outlier_filter_spec s"
  by (rule iqr_eq_spec)

text \<open>
  On nine values the filter drops 100 and keeps 8; a second pass over the result would
  drop 8 as well, so the result of the single pass is not a fixed point.
\<close>

theorem outlier_filter_single_pass_witness:
  "iqr_outlier_removal nine_values = [(0, 0), (1, 0), (2, 0), (3, 1), (4, 1), (5, 1), (6, 2), (7, 8)]
   \<and> quantile (map snd nine_values) (1 / 4) = Some 0
   \<and> quantile (map snd nine_values) (3 / 4) = Some 2
   \<and> iqr_outlier_removal (iqr_outlier_removal nine_values) \<noteq> iqr_outlier_removal nine_values"
proof -
  have "outlier_filter_spec nine_values = [(0, 0), (1, 0), (2, 0), (3, 1), (4, 1), (5, 1), (6, 2), (7, 8)]"
    by code_simp
  moreover have "outlier_filter_spec [(0, 0), (1, 0), (2, 0), (3, 1), (4, 1), (5, 1), (6, 2), (7, 8)]
      = [(0, 0), (1, 0), (2, 0), (3, 1), (4, 1), (5, 1), (6, 2)]"
    by code_simp
  moreover have "quantile (map snd nine_values) (1 / 4) = Some 0" by code_simp
  moreover have "quantile (map snd nine_values) (3 / 4) = Some 2" by code_simp
  ultimately show ?thesis
    by (simp add: outlier_filter_single_pass)
qed

subsection \<open>C4: the days of a country\<close>




subsection \<open>C5: the Country Partitioner\<close>

text \<open>
  Claim C5. \<^verbatim>\<open>filter_countries\<close> keeps exactly the rows whose country name is equal,
  character by character, to a name of the allow-list. \<^verbatim>\<open>encode_country_column\<close> then
  succeeds and replaces each name by the int8 of its first-seen rank: the rank is the
  position of the name in \<^verbatim>\<open>unique()\<close> of the filtered column, counted from 0, and with
  at most 128 distinct names the stored signed value is the rank itself.
\<close>

theorem country_partitioner:
  assumes "filter_countries data country_list = (d, m)"
  shows "d = filter (\<lambda>r. country r \<in> set country_list) data
       \<and> encode_country_column m d = Inr (map (encode_row (map country d)) d)
       \<and> (\<forall>r \<in> set d. first_seen_rank (map country d) (country r) < length (unique (map country d))
              \<and> unique (map country d) ! first_seen_rank (map country d) (country r) = country r)
       \<and> (card (set (map country d)) \<le> 128 \<longrightarrow>
            (\<forall>r \<in> set d. sint (country (encode_row (map country d) r)) =
                              int (first_seen_rank (map country d) (country r))))"
proof (intro conjI)
  show "d = filter (\<lambda>r. country r \<in> set country_list) data"
    using assms by (auto simp: filter_countries_def Let_def)
  show "encode_country_column m d = Inr (map (encode_row (map country d)) d)"
    using assms by (rule encode_after_filter)
  show "\<forall>r \<in> set d. first_seen_rank (map country d) (country r) < length (unique (map country d))
              \<and> unique (map country d) ! first_seen_rank (map country d) (country r) = country r"
    by (simp add: unique_nth_rank)
  show "card (set (map country d)) \<le> 128 \<longrightarrow>
          (\<forall>r \<in> set d. sint (country (encode_row (map country d) r)) =
                            int (first_seen_rank (map country d) (country r)))"
  proof (intro impI ballI)
    fix r assume le: "card (set (map country d)) \<le> 128" and r: "r \<in> set d"
    from r have "first_seen_rank (map country d) (country r) < card (set (map country d))"
      by (intro first_seen_rank_less) simp
    with le have "first_seen_rank (map country d) (country r) < 128" by simp
    then show "sint (country (encode_row (map country d) r)) = int (first_seen_rank (map country d) (country r))"
      by (simp add: encode_row_def sint_astype_small)
  qed
qed

theorem country_partitioner_witness:
  "filter_countries mixed_countries [''United Kingdom'', ''France'', ''Germany''] =
     (kept, [(''France'', 0), (''United Kingdom'', 1), (''Germany'', 2)])
   \<and> encode_country_column [(''France'', 0), (''United Kingdom'', 1), (''Germany'', 2)] kept =
       Inr [\<lparr>invoice_id = ''1'', invoice_date = 21564000, total_price = 1, country = 0\<rparr>,
            \<lparr>invoice_id = ''3'', invoice_date = 21564002, total_price = 3, country = 1\<rparr>,
            \<lparr>invoice_id = ''5'', invoice_date = 21564004, total_price = 5, country = 0\<rparr>,
            \<lparr>invoice_id = ''6'', invoice_date = 21564005, total_price = 6, country = 2\<rparr>]
   \<and> map (\<lambda>r. sint (country (encode_row (map country kept) r))) kept = [0, 1, 0, 2]"
proof -
  have h: "filter_countries mixed_countries [''United Kingdom'', ''France'', ''Germany''] =
     (kept, [(''France'', 0), (''United Kingdom'', 1), (''Germany'', 2)])"
    by code_simp
  have c: "card (set (map country kept)) \<le> 128"
    by code_simp
  have e: "map (encode_row (map country kept)) kept =
       [\<lparr>invoice_id = ''1'', invoice_date = 21564000, total_price = 1, country = 0\<rparr>,
            \<lparr>invoice_id = ''3'', invoice_date = 21564002, total_price = 3, country = 1\<rparr>,
            \<lparr>invoice_id = ''5'', invoice_date = 21564004, total_price = 5, country = 0\<rparr>,
            \<lparr>invoice_id = ''6'', invoice_date = 21564005, total_price = 6, country = 2\<rparr>]"
    by code_simp
  have r: "map (\<lambda>r. int (first_seen_rank (map country kept) (country r))) kept = [0, 1, 0, 2]"
    by code_simp
  from country_partitioner[OF h] c
  have "encode_country_column [(''France'', 0), (''United Kingdom'', 1), (''Germany'', 2)] kept =
          Inr (map (encode_row (map country kept)) kept)"
    and "\<forall>r \<in> set kept. sint (country (encode_row (map country kept) r)) =
                              int (first_seen_rank (map country kept) (country r))"
    by blast+
  then show ?thesis using h e r by (simp cong: map_cong)
qed

subsection \<open>C6: more than 128 countries\<close>

text \<open>
  Claim C6, as stated, says that encoding fails when more than 128 distinct countries
  survive. It does not: with 129 distinct names the encoding returns a frame, and the
  country of rank 128 is stored as -128.
\<close>

theorem many_countries_wrap:
  "card (set (map country (fst (filter_countries many_countries many_names)))) = 129
   \<and> \<not> isl (encode_country_column (snd (filter_countries many_countries many_names))
               (fst (filter_countries many_countries many_names)))
   \<and> sint (country (last (projr (encode_country_column (snd (filter_countries many_countries many_names))
               (fst (filter_countries many_countries many_names)))))) = - 128"
proof -
  have e: "encode_country_column (map (\<lambda>(i, v). (v, i)) (enumerate 0 (unique many_names))) many_countries =
           Inr (map (encode_row many_names) many_countries)"
    using encode_after_filter[OF filter_many_countries]
    by (simp add: country_many_countries)
  have "last (map (encode_row many_names) many_countries) = encode_row many_names (last many_countries)"
    using many_countries_nonempty by (simp add: last_map)
  then show ?thesis
    by (simp add: e filter_many_countries country_many_countries card_many_names sint_code_last)
qed

text \<open>
  Claim C6, amended. When more than 128 distinct countries survive filtering, encoding the
  country column signals no error: every row is encoded, and the stored signed value of a
  code is the first-seen rank wrapped into the range of int8, from -128 to 127.
\<close>

theorem encoding_wraps:
  assumes "filter_countries data country_list = (d, m)"
    and "128 < card (set (map country d))"
  shows "encode_country_column m d = Inr (map (encode_row (map country d)) d)
       \<and> (\<forall>r \<in> set d. sint (country (encode_row (map country d) r)) =
              (int (first_seen_rank (map country d) (country r)) + 128) mod 256 - 128)"
  using encode_after_filter[OF assms(1)] by (simp add: encode_row_def sint_astype)

theorem encoding_wraps_witness:
  "128 < card (set (map country many_countries))
   \<and> encode_country_column (map (\<lambda>(i, v). (v, i)) (enumerate 0 (unique many_names))) many_countries =
       Inr (map (encode_row many_names) many_countries)
   \<and> last many_countries \<in> set many_countries
   \<and> first_seen_rank many_names (country (last many_countries)) = 128
   \<and> sint (country (encode_row many_names (last many_countries))) = - 128"
proof -
  have c: "128 < card (set (map country many_countries))"
    by (simp add: country_many_countries card_many_names)
  have l: "last many_countries \<in> set many_countries"
    using many_countries_nonempty by simp
  from encoding_wraps[OF filter_many_countries c] l
  have "encode_country_column (map (\<lambda>(i, v). (v, i)) (enumerate 0 (unique many_names))) many_countries =
       Inr (map (encode_row (map country many_countries)) many_countries)"
    and "sint (country (encode_row (map country many_countries) (last many_countries))) =
          (int (first_seen_rank (map country many_countries) (country (last many_countries))) + 128) mod 256 - 128"
    by blast+
  then show ?thesis
    using c l by (simp add: country_many_countries last_many_countries rank_last_name)
qed

subsection \<open>C7: the expectation suite\<close>

text \<open>
  Claim C7. The suite that \<^verbatim>\<open>build_expectation_suite\<close> returns holds these eight
  expectations and no other: the columns are id, invoice_date, country, total_price in this
  order, and there are 4 of them; invoice_date is never null; the distinct values of country
  are in (0, 1, 2) and its type is int8; the minimum of total_price is at least 0, the bound
  included (\<^verbatim>\<open>strict_min\<close> is false, and there is no upper bound), its type is float64,
  and it is never null.
\<close>

theorem expectation_suite_rules:
  "build_expectation_suite =
     [\<lparr>expectation_type = ''expect_table_columns_to_match_ordered_list'',
       kwargs = [(''column_list'', StrList [''id'', ''invoice_date'', ''country'', ''total_price''])]\<rparr>,
      \<lparr>expectation_type = ''expect_table_column_count_to_equal'',
       kwargs = [(''value'', Num 4)]\<rparr>,
      \<lparr>expectation_type = ''expect_column_values_to_not_be_null'',
       kwargs = [(''column'', Str ''invoice_date'')]\<rparr>,
      \<lparr>expectation_type = ''expect_column_distinct_values_to_be_in_set'',
       kwargs = [(''column'', Str ''country''), (''value_set'', NumTuple [0, 1, 2])]\<rparr>,
      \<lparr>expectation_type = ''expect_column_values_to_be_of_type'',
       kwargs = [(''column'', Str ''country''), (''type_'', Str ''int8'')]\<rparr>,
      \<lparr>expectation_type = ''expect_column_min_to_be_between'',
       kwargs = [(''column'', Str ''total_price''), (''min_value'', Num 0), (''strict_min'', Flag False)]\<rparr>,
      \<lparr>expectation_type = ''expect_column_values_to_be_of_type'',
       kwargs = [(''column'', Str ''total_price''), (''type_'', Str ''float64'')]\<rparr>,
      \<lparr>expectation_type = ''expect_column_values_to_not_be_null'',
       kwargs = [(''column'', Str ''total_price'')]\<rparr>]"
  by code_simp

subsection \<open>C8: the empty cache file\<close>




subsection \<open>C9: empty partitions\<close>

text \<open>
  Claim C9 says that the aggregation completes on an empty partition and contributes no
  row. The code does not: the quantile of the empty series is NaN and outlier removal
  returns the empty frame, without error, but the resampling of the empty frame raises
  \<^verbatim>\<open>AttributeError\<close>, and there is no guard before it. With no row matching the allow-list
  the transformation raises in the turn of country 0; with rows of country 0 only it raises in
  the turn of country 1.
\<close>

theorem empty_partition_raises:
  "transform_with [''Italy''] mixed_countries = Inl AttributeError
   \<and> aggregate_data [] = Inl AttributeError
   \<and> agg_data_1 (agg_by_invoice one_country) 1 = []
   \<and> quantile (map snd (agg_data_1 (agg_by_invoice one_country) 1)) (1 / 4) = None
   \<and> iqr_outlier_removal (agg_data_1 (agg_by_invoice one_country) 1) = []
   \<and> resample_sum (iqr_outlier_removal (agg_data_1 (agg_by_invoice one_country) 1)) = Inl AttributeError
   \<and> aggregate_country (agg_by_invoice one_country) 1 = Inl AttributeError
   \<and> aggregate_data one_country = Inl AttributeError"
  by code_simp

subsection \<open>C10: the countries of the output\<close>

text \<open>
  Claim C10. The outcome of the aggregation, table or error, is the same as for the input
  without the rows whose code is not 0, 1 or 2: such rows are left out and cause no error.
  Every row of a table that the aggregation returns has country 0, 1 or 2; and it returns a
  table whenever each of the codes 0, 1 and 2 has at least one input row.
\<close>

theorem output_countries:
  "aggregate_data (filter (\<lambda>r. sint (country r) \<in> {0, 1, 2}) data) = aggregate_data data
   \<and> (\<forall>tab. aggregate_data data = Inr tab \<longrightarrow> (\<forall>r \<in> set tab. country' r \<in> {0, 1, 2}))
   \<and> ((\<forall>c \<in> {0, 1, 2}. \<exists>r \<in> set data. sint (country r) = c) \<longrightarrow> (\<exists>tab. aggregate_data data = Inr tab))"
proof (intro conjI allI impI ballI)
  show "aggregate_data (filter (\<lambda>r. sint (country r) \<in> {0, 1, 2}) data) = aggregate_data data"
    by (rule aggregate_data_filter_codes)
next
  fix tab r assume "aggregate_data data = Inr tab" and "r \<in> set tab"
  then have "r \<in> set (add_id (partitions data))"
    using aggregate_data_Inr[of data tab] by simp
  then have "cols r \<in> set (map cols (add_id (partitions data)))"
    by simp
  then have "cols r \<in> set (partitions data)"
    by (simp only: cols_add_id)
  then show "country' r \<in> {0, 1, 2}"
    unfolding country'_cols by (rule country_partitions)
next
  assume "\<forall>c \<in> {0, 1, 2}. \<exists>r \<in> set data. sint (country r) = c"
  then show "\<exists>tab. aggregate_data data = Inr tab"
    by (simp only: aggregate_data_returns_iff)
qed

theorem output_countries_witness:
  "aggregate_data stray_code =
     Inr [\<lparr>invoice_date' = 21564000, total_price' = Some 3, country' = 0, id' = 0\<rparr>,
          \<lparr>invoice_date' = 21565440, total_price' = Some 4, country' = 0, id' = 1\<rparr>,
          \<lparr>invoice_date' = 21564000, total_price' = Some 1, country' = 1, id' = 2\<rparr>,
          \<lparr>invoice_date' = 21564000, total_price' = Some 2, country' = 2, id' = 3\<rparr>]
   \<and> map country' (projr (aggregate_data stray_code)) = [0, 0, 1, 2]
   \<and> map (\<lambda>r. sint (country r)) stray_code = [0, 5, 0, 1, 2]
   \<and> aggregate_data (filter (\<lambda>r. sint (country r) \<in> {0, 1, 2}) stray_code) = aggregate_data stray_code"
proof -
  note v = aggregate_data_stray_code
  have s: "map (\<lambda>r. sint (country r)) stray_code = [0, 5, 0, 1, 2]"
    by (simp add: stray_code_def)
  from output_countries[of stray_code] have
    "aggregate_data (filter (\<lambda>r. sint (country r) \<in> {0, 1, 2}) stray_code) = aggregate_data stray_code"
    by blast
  with v s show ?thesis by simp
qed

end
